theory Spec2Isabelle
  imports Main
begin

section \<open>Text, files and standard output\<close>

text \<open>
  The program is the Python 3 script \<^verbatim>\<open>diff.py\<close>:
  \<^verbatim>\<open>
  def main():
      with open("out1") as file:
          out1set = set(file.read().splitlines())
      with open("out2") as file:
          out2set = set(file.read().splitlines())
      diff = out1set.symmetric_difference(out2set)
      print("out1 - out2:", out1set - out2set)
      print("out2 - out1:", out2set - out1set)
  \<close>
  A Python \<^verbatim>\<open>str\<close> is a sequence of Unicode code points, so text is a list of
  natural numbers here (an 8-bit character type would lose the two line separators
  beyond U+00FF that \<^verbatim>\<open>splitlines\<close> knows).
\<close>

type_synonym pystr = "nat list"

abbreviation LF :: nat where "LF \<equiv> 10"
abbreviation CR :: nat where "CR \<equiv> 13"

text \<open>
  The characters that \<^verbatim>\<open>str.splitlines\<close> takes as line boundaries: line feed,
  vertical tab, form feed, carriage return, file, group and record separator, next line
  (U+0085), line separator (U+2028) and paragraph separator (U+2029).
\<close>

definition is_linebreak :: "nat \<Rightarrow> bool" where
  "is_linebreak c =
     (c = 10 \<or> c = 11 \<or> c = 12 \<or> c = 13 \<or> c = 28 \<or> c = 29 \<or> c = 30 \<or>
      c = 133 \<or> c = 8232 \<or> c = 8233)"

definition is_linechar :: "nat \<Rightarrow> bool" where
  "is_linechar c = (\<not> is_linebreak c)"

text \<open>
  \<^verbatim>\<open>open(name)\<close> opens in text mode with \<^verbatim>\<open>newline=None\<close>: while reading, a
  carriage return followed by a line feed, and a lone carriage return, both arrive as one
  line feed.
\<close>

fun universal_newlines :: "pystr \<Rightarrow> pystr" where
  "universal_newlines [] = []"
| "universal_newlines [c] = (if c = CR then [LF] else [c])"
| "universal_newlines (c # d # s) =
     (if c = CR \<and> d = LF then LF # universal_newlines s
      else if c = CR then LF # universal_newlines (d # s)
      else c # universal_newlines (d # s))"

text \<open>
  \<^verbatim>\<open>splitlines\<close> walks the text: it scans to the next line boundary, skips the
  boundary (a carriage return and line feed together count as one), emits the characters
  before it as a line, and goes on until the text is used up. The boundaries are not part
  of the lines, and text that ends in a boundary gets no empty line after it.
\<close>

fun skip_eol :: "pystr \<Rightarrow> pystr" where
  "skip_eol [] = []"
| "skip_eol [c] = []"
| "skip_eol (c # d # s) = (if c = CR \<and> d = LF then s else d # s)"

function splitlines :: "pystr \<Rightarrow> pystr list" where
  "splitlines s =
     (if s = [] then []
      else takeWhile is_linechar s # splitlines (skip_eol (dropWhile is_linechar s)))"
  by pat_completeness auto

termination splitlines
proof (relation "measure length")
  show "wf (measure length)" by simp
next
  fix s :: pystr
  assume nonempty: "s \<noteq> []"
  have skip: "length (skip_eol r) \<le> length r - 1" for r
    by (induction r rule: skip_eol.induct) auto
  have "length (dropWhile is_linechar s) \<le> length s"
    by (rule length_dropWhile_le)
  with skip [of "dropWhile is_linechar s"] nonempty
  show "(skip_eol (dropWhile is_linechar s), s) \<in> measure length"
    by (cases s) auto
qed

text \<open>
  The file system as the program sees it: a path either yields its decoded text or cannot
  be opened, read or decoded. The exception Python raises then (\<^verbatim>\<open>OSError\<close> or
  \<^verbatim>\<open>UnicodeDecodeError\<close>) is not caught by the program and ends the run; it is the
  one error of the model, under the specification's name for it. Standard output is the
  list of lines printed so far; one call of \<^verbatim>\<open>print\<close> writes one line, kept as
  the list of its arguments (the rendering of a set, and the order of its elements there,
  is left to Python).
\<close>

datatype error = FileAccessError

datatype pyval = Str string | StrSet "pystr set"

record world =
  files :: "string \<rightharpoonup> pystr"
  stdout :: "pyval list list"

definition open_read :: "string \<Rightarrow> world \<Rightarrow> error + pystr" where
  "open_read name w =
     (case files w name of
        None \<Rightarrow> Inl FileAccessError
      | Some raw \<Rightarrow> Inr (universal_newlines raw))"

definition print :: "pyval list \<Rightarrow> world \<Rightarrow> world" where
  "print args w = w\<lparr>stdout := stdout w @ [args]\<rparr>"

definition symmetric_difference :: "'a set \<Rightarrow> 'a set \<Rightarrow> 'a set" where
  "symmetric_difference a b = (a - b) \<union> (b - a)"

section \<open>The program\<close>

definition main :: "world \<Rightarrow> (error + unit) \<times> world" where
  "main w =
     (case open_read ''out1'' w of
        Inl e \<Rightarrow> (Inl e, w)
      | Inr text1 \<Rightarrow>
          let out1set = set (splitlines text1) in
          (case open_read ''out2'' w of
             Inl e \<Rightarrow> (Inl e, w)
           | Inr text2 \<Rightarrow>
               let out2set = set (splitlines text2);
                   diff = symmetric_difference out1set out2set;
                   w1 = print [Str ''out1 - out2:'', StrSet (out1set - out2set)] w;
                   w2 = print [Str ''out2 - out1:'', StrSet (out2set - out1set)] w1
               in (Inr (), w2)))"

text \<open>
  The program with the statement \<^verbatim>\<open>diff = out1set.symmetric_difference(out2set)\<close>
  taken out, as the specification says a reimplementation may do.
\<close>

definition main_without_diff :: "world \<Rightarrow> (error + unit) \<times> world" where
  "main_without_diff w =
     (case open_read ''out1'' w of
        Inl e \<Rightarrow> (Inl e, w)
      | Inr text1 \<Rightarrow>
          let out1set = set (splitlines text1) in
          (case open_read ''out2'' w of
             Inl e \<Rightarrow> (Inl e, w)
           | Inr text2 \<Rightarrow>
               let out2set = set (splitlines text2);
                   w1 = print [Str ''out1 - out2:'', StrSet (out1set - out2set)] w;
                   w2 = print [Str ''out2 - out1:'', StrSet (out2set - out1set)] w1
               in (Inr (), w2)))"

section \<open>Notions of the specification\<close>

text \<open>
  The lines of a file as the program obtains them, \<^verbatim>\<open>file.read().splitlines()\<close>,
  and the LineSet built from them, \<^verbatim>\<open>set(...)\<close>.
\<close>

definition read_lines :: "pystr \<Rightarrow> pystr list" where
  "read_lines raw = splitlines (universal_newlines raw)"

definition lineset :: "pystr \<Rightarrow> pystr set" where
  "lineset raw = set (read_lines raw)"

text \<open>
  The world in which \<^verbatim>\<open>out1\<close> holds \<open>c1\<close>, \<^verbatim>\<open>out2\<close> holds \<open>c2\<close>, no
  other file exists and nothing has been printed; and what a run prints there.
\<close>

definition world_of :: "pystr \<Rightarrow> pystr \<Rightarrow> world" where
  "world_of c1 c2 =
     \<lparr>files = [''out1'' \<mapsto> c1, ''out2'' \<mapsto> c2], stdout = []\<rparr>"

definition reported :: "pystr \<Rightarrow> pystr \<Rightarrow> pyval list list" where
  "reported c1 c2 = stdout (snd (main (world_of c1 c2)))"

section \<open>Line splitting\<close>

text \<open>
  The defining equation of \<open>splitlines\<close> rewrites its own right-hand side, so it is
  taken out of the simplifier's rules and replaced by the two equations below.
\<close>

declare splitlines.simps [simp del]

lemma splitlines_Nil [simp]: "splitlines [] = []"
  by (simp add: splitlines.simps)

lemma splitlines_Cons:
  "splitlines (c # s) =
     takeWhile is_linechar (c # s) # splitlines (skip_eol (dropWhile is_linechar (c # s)))"
  by (subst splitlines.simps) simp

lemma splitlines_nonempty:
  "s \<noteq> [] \<Longrightarrow>
   splitlines s = takeWhile is_linechar s # splitlines (skip_eol (dropWhile is_linechar s))"
  by (subst splitlines.simps) simp

lemma skip_eol_not_CR: "b \<noteq> CR \<Longrightarrow> skip_eol (b # t) = t"
  by (cases t) auto

lemma universal_newlines_Nil_iff [simp]: "universal_newlines s = [] \<longleftrightarrow> s = []"
  by (induction s rule: universal_newlines.induct) auto

lemma takeWhile_universal_newlines:
  "takeWhile is_linechar (universal_newlines s) = takeWhile is_linechar s"
  by (induction s rule: universal_newlines.induct)
     (auto simp: is_linechar_def is_linebreak_def)

lemma skip_dropWhile_universal_newlines:
  "skip_eol (dropWhile is_linechar (universal_newlines s)) =
   universal_newlines (skip_eol (dropWhile is_linechar s))"
proof (induction s rule: universal_newlines.induct)
  case 1
  show ?case by simp
next
  case (2 c)
  show ?case by (simp add: is_linechar_def is_linebreak_def)
next
  case (3 c d s)
  show ?case
  proof (cases "is_linechar c")
    case True
    then have "c \<noteq> CR" by (auto simp: is_linechar_def is_linebreak_def)
    with True 3 show ?thesis by simp
  next
    case False
    have "\<not> is_linechar LF" by (simp add: is_linechar_def is_linebreak_def)
    with False show ?thesis
      by (simp add: skip_eol_not_CR)
  qed
qed

lemma splitlines_universal_newlines:
  "splitlines (universal_newlines s) = splitlines s"
proof (induction s rule: splitlines.induct)
  case (1 s)
  show ?case
  proof (cases "s = []")
    case True
    then show ?thesis by simp
  next
    case False
    then have "universal_newlines s \<noteq> []" by simp
    then have "splitlines (universal_newlines s) =
        takeWhile is_linechar s #
        splitlines (universal_newlines (skip_eol (dropWhile is_linechar s)))"
      by (simp add: splitlines_nonempty takeWhile_universal_newlines
            skip_dropWhile_universal_newlines)
    also have "\<dots> = takeWhile is_linechar s # splitlines (skip_eol (dropWhile is_linechar s))"
      using 1 [OF False] by simp
    also have "\<dots> = splitlines s"
      using False by (simp add: splitlines_nonempty)
    finally show ?thesis .
  qed
qed

lemma splitlines_unbroken:
  assumes "\<forall>c\<in>set l. is_linechar c" and "l \<noteq> []"
  shows "splitlines l = [l]"
proof -
  from assms(1) have "takeWhile is_linechar l = l" and "dropWhile is_linechar l = []"
    by simp_all
  with assms(2) splitlines_nonempty [of l] show ?thesis by simp
qed

lemma splitlines_at_break:
  assumes "\<forall>c\<in>set l. is_linechar c" and "\<not> is_linechar b"
  shows "splitlines (l @ b # rest) = l # splitlines (skip_eol (b # rest))"
proof -
  from assms have "takeWhile is_linechar (l @ b # rest) = l"
    by simp
  moreover from assms have "dropWhile is_linechar (l @ b # rest) = b # rest"
    by simp
  ultimately show ?thesis by (simp add: splitlines_nonempty)
qed

lemma splitlines_linechars:
  "l \<in> set (splitlines s) \<Longrightarrow> c \<in> set l \<Longrightarrow> is_linechar c"
proof (induction s rule: splitlines.induct)
  case (1 s)
  show ?case
  proof (cases "s = []")
    case True
    with 1 show ?thesis by simp
  next
    case False
    with "1.prems" have "l = takeWhile is_linechar s \<or>
        l \<in> set (splitlines (skip_eol (dropWhile is_linechar s)))"
      by (simp add: splitlines_nonempty)
    then show ?thesis
    proof
      assume "l = takeWhile is_linechar s"
      with "1.prems" show ?thesis by (auto dest: set_takeWhileD)
    next
      assume "l \<in> set (splitlines (skip_eol (dropWhile is_linechar s)))"
      with 1 False show ?thesis by blast
    qed
  qed
qed

lemma splitlines_append_LF:
  "splitlines (s @ [LF]) =
     (if s = [] \<or> (is_linebreak (last s) \<and> last s \<noteq> CR)
      then splitlines s @ [[]] else splitlines s)"
proof (induction s rule: splitlines.induct)
  case (1 s)
  have brk: "\<not> is_linechar LF" by (simp add: is_linechar_def is_linebreak_def)
  show ?case
  proof (cases "s = []")
    case True
    then show ?thesis using brk by (simp add: splitlines_Cons)
  next
    case False
    define l where "l = takeWhile is_linechar s"
    define r where "r = dropWhile is_linechar s"
    have s: "s = l @ r" and l: "\<forall>c\<in>set l. is_linechar c"
      by (auto simp: l_def r_def dest: set_takeWhileD)
    show ?thesis
    proof (cases r)
      case Nil
      with s False l have "splitlines s = [s]" "splitlines (s @ [LF]) = [s]"
        "is_linechar (last s)"
        using brk by (simp_all add: splitlines_unbroken splitlines_at_break)
      with False show ?thesis by (simp add: is_linechar_def)
    next
      case (Cons b r')
      have b: "\<not> is_linechar b"
        using Cons hd_dropWhile [of is_linechar s] by (simp add: r_def)
      have whole: "splitlines s = l # splitlines (skip_eol (b # r'))"
        using s Cons l b by (simp add: splitlines_at_break)
      have ext: "splitlines (s @ [LF]) = l # splitlines (skip_eol (b # r' @ [LF]))"
        using s Cons l b splitlines_at_break [of l b "r' @ [LF]"] by simp
      show ?thesis
      proof (cases r')
        case Nil
        with s Cons have "last s = b" by simp
        moreover have "splitlines (skip_eol (b # r' @ [LF])) = (if b = CR then [] else [[]])"
          using Nil brk by (simp add: splitlines_Cons)
        moreover have "splitlines (skip_eol (b # r')) = []" using Nil by simp
        ultimately show ?thesis using whole ext False b by (simp add: is_linechar_def)
      next
        case inner: (Cons d r'')
        let ?t = "skip_eol (dropWhile is_linechar s)"
        have t: "?t = skip_eol (b # r')" using Cons by (simp add: r_def)
        have t_ext: "skip_eol (b # r' @ [LF]) = ?t @ [LF]"
          using t inner by simp
        have ih: "splitlines (?t @ [LF]) =
            (if ?t = [] \<or> (is_linebreak (last ?t) \<and> last ?t \<noteq> CR)
             then splitlines ?t @ [[]] else splitlines ?t)"
          using 1 [OF False] .
        show ?thesis
        proof (cases "?t = []")
          case True
          with t inner have "b = CR" "d = LF" "r'' = []" by (auto split: if_splits)
          with s Cons inner have "last s = LF" by simp
          with True whole ext t t_ext ih False show ?thesis
            by (simp add: is_linebreak_def)
        next
          case nonempty: False
          have "last s = last ?t"
            using s Cons inner t nonempty by (auto split: if_splits)
          with nonempty whole ext t t_ext ih False show ?thesis by simp
        qed
      qed
    qed
  qed
qed

lemma read_lines_splitlines: "read_lines raw = splitlines raw"
  by (simp add: read_lines_def splitlines_universal_newlines)

section \<open>Runs of the program\<close>

lemma main_reads_both:
  assumes "files w ''out1'' = Some c1" and "files w ''out2'' = Some c2"
  shows "main w =
    (Inr (), w\<lparr>stdout := stdout w @
       [[Str ''out1 - out2:'', StrSet (lineset c1 - lineset c2)],
        [Str ''out2 - out1:'', StrSet (lineset c2 - lineset c1)]]\<rparr>)"
  using assms
  by (simp add: main_def open_read_def print_def lineset_def read_lines_def Let_def)

lemma reported_eq:
  "reported c1 c2 =
     [[Str ''out1 - out2:'', StrSet (lineset c1 - lineset c2)],
      [Str ''out2 - out1:'', StrSet (lineset c2 - lineset c1)]]"
  by (simp add: reported_def world_of_def main_reads_both)

lemma main_open_fails:
  assumes "files w ''out1'' = None \<or> files w ''out2'' = None"
  shows "main w = (Inl FileAccessError, w)"
  using assms
  by (auto simp: main_def open_read_def Let_def split: option.splits)

text \<open>
  C1. Whatever the two files hold, the run succeeds and appends exactly two lines to
  standard output: first the label \<^verbatim>\<open>out1 - out2:\<close> with the lines of
  \<^verbatim>\<open>out1\<close> that are not lines of \<^verbatim>\<open>out2\<close>, then the label
  \<^verbatim>\<open>out2 - out1:\<close> with the lines of \<^verbatim>\<open>out2\<close> that are not lines of
  \<^verbatim>\<open>out1\<close>. Nothing else of the world changes.
\<close>

theorem main_prints_both_differences:
  assumes "files w ''out1'' = Some c1" and "files w ''out2'' = Some c2"
  shows "main w =
    (Inr (), w\<lparr>stdout := stdout w @
       [[Str ''out1 - out2:'', StrSet (lineset c1 - lineset c2)],
        [Str ''out2 - out1:'', StrSet (lineset c2 - lineset c1)]]\<rparr>)"
  using assms by (rule main_reads_both)

theorem main_prints_both_differences_witness:
  "files (world_of [97, LF, 98] [98, LF, 99]) ''out1'' = Some [97, LF, 98] \<and>
   files (world_of [97, LF, 98] [98, LF, 99]) ''out2'' = Some [98, LF, 99] \<and>
   main (world_of [97, LF, 98] [98, LF, 99]) =
     (Inr (), (world_of [97, LF, 98] [98, LF, 99])\<lparr>stdout :=
        [[Str ''out1 - out2:'', StrSet {[97]}], [Str ''out2 - out1:'', StrSet {[99]}]]\<rparr>)"
proof -
  have f1: "files (world_of [97, LF, 98] [98, LF, 99]) ''out1'' = Some [97, LF, 98]"
    by (simp add: world_of_def)
  have f2: "files (world_of [97, LF, 98] [98, LF, 99]) ''out2'' = Some [98, LF, 99]"
    by (simp add: world_of_def)
  have l1: "lineset [97, LF, 98] = {[97], [98]}"
    by (simp add: lineset_def read_lines_def splitlines_Cons is_linechar_def is_linebreak_def)
  have l2: "lineset [98, LF, 99] = {[98], [99]}"
    by (simp add: lineset_def read_lines_def splitlines_Cons is_linechar_def is_linebreak_def)
  have d1: "lineset [97, LF, 98] - lineset [98, LF, 99] = {[97]}"
    unfolding l1 l2 by auto
  have d2: "lineset [98, LF, 99] - lineset [97, LF, 98] = {[99]}"
    unfolding l1 l2 by auto
  have "stdout (world_of [97, LF, 98] [98, LF, 99]) = []"
    by (simp add: world_of_def)
  with main_prints_both_differences [OF f1 f2] f1 f2 d1 d2 show ?thesis
    by simp
qed

text \<open>
  C6. When either input file cannot be opened or read, the run fails with
  \<open>FileAccessError\<close> and leaves the world, standard output included, as it was: both
  reads come before the first \<^verbatim>\<open>print\<close>.
\<close>

theorem main_missing_file_fails:
  assumes "files w ''out1'' = None \<or> files w ''out2'' = None"
  shows "main w = (Inl FileAccessError, w)"
  using assms by (rule main_open_fails)

theorem main_missing_file_fails_witness:
  "(files \<lparr>files = [''out1'' \<mapsto> [97]], stdout = [[Str ''earlier'']]\<rparr> ''out1'' = None \<or>
    files \<lparr>files = [''out1'' \<mapsto> [97]], stdout = [[Str ''earlier'']]\<rparr> ''out2'' = None) \<and>
   main \<lparr>files = [''out1'' \<mapsto> [97]], stdout = [[Str ''earlier'']]\<rparr> =
     (Inl FileAccessError, \<lparr>files = [''out1'' \<mapsto> [97]], stdout = [[Str ''earlier'']]\<rparr>)"
proof -
  have h: "files \<lparr>files = [''out1'' \<mapsto> [97]], stdout = [[Str ''earlier'']]\<rparr> ''out1'' = None \<or>
    files \<lparr>files = [''out1'' \<mapsto> [97]], stdout = [[Str ''earlier'']]\<rparr> ''out2'' = None"
    by simp
  from h main_missing_file_fails [OF h] show ?thesis by blast
qed

text \<open>
  C9. The value \<^verbatim>\<open>diff\<close> is never used: the program without the statement that
  computes it behaves as the program does, on every world.
\<close>

theorem main_diff_is_dead: "main w = main_without_diff w"
  unfolding main_def main_without_diff_def Let_def ..

section \<open>The reported sets\<close>

text \<open>
  C2. The two printed sets and the shared lines together make up all lines of the two
  files, and no line is in two of the three: every distinct line of either file is
  accounted for exactly once.
\<close>

theorem reported_sets_cover:
  "\<exists>onlyA onlyB.
     reported c1 c2 =
       [[Str ''out1 - out2:'', StrSet onlyA], [Str ''out2 - out1:'', StrSet onlyB]] \<and>
     onlyA \<union> onlyB \<union> (lineset c1 \<inter> lineset c2) = lineset c1 \<union> lineset c2 \<and>
     onlyA \<inter> onlyB = {} \<and>
     onlyA \<inter> (lineset c1 \<inter> lineset c2) = {} \<and>
     onlyB \<inter> (lineset c1 \<inter> lineset c2) = {}"
proof (intro exI conjI)
  show "reported c1 c2 =
      [[Str ''out1 - out2:'', StrSet (lineset c1 - lineset c2)],
       [Str ''out2 - out1:'', StrSet (lineset c2 - lineset c1)]]"
    by (rule reported_eq)
qed blast+

text \<open>
  C3. The two printed sets are disjoint: no line is reported both as only in
  \<^verbatim>\<open>out1\<close> and as only in \<^verbatim>\<open>out2\<close>.
\<close>

theorem reported_sets_disjoint:
  "\<exists>onlyA onlyB.
     reported c1 c2 =
       [[Str ''out1 - out2:'', StrSet onlyA], [Str ''out2 - out1:'', StrSet onlyB]] \<and>
     onlyA \<inter> onlyB = {}"
proof (intro exI conjI)
  show "reported c1 c2 =
      [[Str ''out1 - out2:'', StrSet (lineset c1 - lineset c2)],
       [Str ''out2 - out1:'', StrSet (lineset c2 - lineset c1)]]"
    by (rule reported_eq)
  show "(lineset c1 - lineset c2) \<inter> (lineset c2 - lineset c1) = {}"
    by blast
qed

text \<open>
  C5. Exchanging the texts of the two files exchanges the two printed sets: what stood
  after \<^verbatim>\<open>out1 - out2:\<close> now stands after \<^verbatim>\<open>out2 - out1:\<close>, and the other way
  round.
\<close>

theorem swapped_inputs_swap_reports:
  "\<exists>onlyA onlyB.
     reported c1 c2 =
       [[Str ''out1 - out2:'', StrSet onlyA], [Str ''out2 - out1:'', StrSet onlyB]] \<and>
     reported c2 c1 =
       [[Str ''out1 - out2:'', StrSet onlyB], [Str ''out2 - out1:'', StrSet onlyA]]"
  by (simp add: reported_eq)

text \<open>
  C10. An empty \<^verbatim>\<open>out1\<close> has the empty LineSet, so the first printed set is empty and
  the second is the whole LineSet of \<^verbatim>\<open>out2\<close>; likewise with the files exchanged.
\<close>

theorem empty_file_reports:
  "lineset [] = {} \<and>
   reported [] c =
     [[Str ''out1 - out2:'', StrSet {}], [Str ''out2 - out1:'', StrSet (lineset c)]] \<and>
   reported c [] =
     [[Str ''out1 - out2:'', StrSet (lineset c)], [Str ''out2 - out1:'', StrSet {}]]"
proof -
  have "lineset [] = {}"
    by (simp add: lineset_def read_lines_def)
  then show ?thesis
    by (simp add: reported_eq)
qed

section \<open>Repeated lines\<close>

lemma set_by_count_and_rest:
  assumes "0 < count_list xs l" and "0 < count_list ys l"
    and "removeAll l ys = removeAll l xs"
  shows "set ys = set xs"
proof -
  have "l \<in> set xs"
    using assms(1) count_list_0_iff [of xs l] by auto
  moreover have "l \<in> set ys"
    using assms(2) count_list_0_iff [of ys l] by auto
  moreover from assms(3) have "set ys - {l} = set xs - {l}"
    by (metis set_removeAll)
  ultimately show ?thesis by blast
qed

text \<open>
  C4. A line that stands \<open>N > 1\<close> times among the lines of a file is one member of the
  file's LineSet, and a file that differs only in holding that line once has the same
  LineSet, so both printed sets are the same, whichever of the two inputs the file is.
\<close>

theorem duplicate_lines_collapse:
  assumes "1 < N" and "count_list (read_lines c) l = N"
    and "count_list (read_lines c') l = 1"
    and "removeAll l (read_lines c') = removeAll l (read_lines c)"
  shows "card {x \<in> lineset c. x = l} = 1 \<and>
         lineset c' = lineset c \<and>
         reported c' other = reported c other \<and>
         reported other c' = reported other c"
proof -
  from assms(1,2) have pos: "0 < count_list (read_lines c) l" by simp
  then have "l \<in> lineset c"
    using count_list_0_iff [of "read_lines c" l] by (auto simp: lineset_def)
  then have "{x \<in> lineset c. x = l} = {l}" by blast
  then have one: "card {x \<in> lineset c. x = l} = 1" by simp
  from assms(3) have pos': "0 < count_list (read_lines c') l" by simp
  have same: "lineset c' = lineset c"
    unfolding lineset_def using pos pos' assms(4) by (rule set_by_count_and_rest)
  with one show ?thesis by (simp add: reported_eq)
qed

theorem duplicate_lines_collapse_witness:
  "(1::nat) < 3 \<and>
   count_list (read_lines [97, LF, 98, LF, 97, LF, 97, LF]) [97] = 3 \<and>
   count_list (read_lines [97, LF, 98, LF]) [97] = 1 \<and>
   removeAll [97] (read_lines [97, LF, 98, LF]) =
     removeAll [97] (read_lines [97, LF, 98, LF, 97, LF, 97, LF]) \<and>
   card {x \<in> lineset [97, LF, 98, LF, 97, LF, 97, LF]. x = [97]} = 1 \<and>
   lineset [97, LF, 98, LF] = lineset [97, LF, 98, LF, 97, LF, 97, LF] \<and>
   reported [97, LF, 98, LF] [98, LF, 99] =
     reported [97, LF, 98, LF, 97, LF, 97, LF] [98, LF, 99] \<and>
   reported [98, LF, 99] [97, LF, 98, LF] =
     reported [98, LF, 99] [97, LF, 98, LF, 97, LF, 97, LF]"
proof -
  have long: "read_lines [97, LF, 98, LF, 97, LF, 97, LF] = [[97], [98], [97], [97]]"
    by (simp add: read_lines_def splitlines_Cons is_linechar_def is_linebreak_def)
  have short: "read_lines [97, LF, 98, LF] = [[97], [98]]"
    by (simp add: read_lines_def splitlines_Cons is_linechar_def is_linebreak_def)
  have h1: "(1::nat) < 3" by simp
  have h2: "count_list (read_lines [97, LF, 98, LF, 97, LF, 97, LF]) [97] = 3"
    by (simp add: long)
  have h3: "count_list (read_lines [97, LF, 98, LF]) [97] = 1"
    by (simp add: short)
  have h4: "removeAll [97] (read_lines [97, LF, 98, LF]) =
      removeAll [97] (read_lines [97, LF, 98, LF, 97, LF, 97, LF])"
    by (simp add: long short)
  from h1 h2 h3 h4 duplicate_lines_collapse [OF h1 h2 h3 h4, of "[98, LF, 99]"]
  show ?thesis by blast
qed

section \<open>The final newline\<close>

text \<open>
  The empty file and the file that holds one line feed differ only in the final newline,
  yet the first has no line and the second has one, the empty line. In the same way the
  text \<^verbatim>\<open>"x\n\n"\<close> ends in a newline and its last line is empty.
\<close>

theorem final_newline_counterexample:
  "lineset [] = {} \<and> lineset ([] @ [LF]) = {[]} \<and> lineset ([] @ [LF]) \<noteq> lineset [] \<and>
   read_lines ([120, LF] @ [LF]) = [[120], []] \<and>
   lineset ([120, LF] @ [LF]) \<noteq> lineset [120, LF]"
  by (simp add: lineset_def read_lines_def splitlines_Cons is_linechar_def is_linebreak_def)

text \<open>
  C7, amended. A final newline ends the last line and puts no empty line after it: the
  text \<^verbatim>\<open>"x\n"\<close> has the LineSet \<open>{x}\<close>, and a text that is not empty and does not end
  in a line boundary has the same lines with and without one final newline (so does a text
  that ends in a lone carriage return, which the newline completes). After the empty text,
  and after a text that ends in another line boundary, the added newline ends an empty
  line, which is then the last line and a member of the LineSet.
\<close>

theorem final_newline_lines:
  "read_lines (c @ [LF]) =
     (if c = [] \<or> (is_linebreak (last c) \<and> last c \<noteq> CR)
      then read_lines c @ [[]] else read_lines c) \<and>
   lineset (c @ [LF]) =
     (if c = [] \<or> (is_linebreak (last c) \<and> last c \<noteq> CR)
      then insert [] (lineset c) else lineset c) \<and>
   lineset [120, LF] = {[120]}"
proof -
  have lines: "read_lines (c @ [LF]) =
     (if c = [] \<or> (is_linebreak (last c) \<and> last c \<noteq> CR)
      then read_lines c @ [[]] else read_lines c)"
    unfolding read_lines_splitlines by (rule splitlines_append_LF)
  then have "lineset (c @ [LF]) =
     (if c = [] \<or> (is_linebreak (last c) \<and> last c \<noteq> CR)
      then insert [] (lineset c) else lineset c)"
    by (simp add: lineset_def)
  moreover have "lineset [120, LF] = {[120]}"
    by (simp add: lineset_def read_lines_def splitlines_Cons is_linechar_def
          is_linebreak_def)
  ultimately show ?thesis using lines by blast
qed

theorem final_newline_lines_witness:
  "read_lines ([97, LF, 98] @ [LF]) = [[97], [98]] \<and>
   read_lines [97, LF, 98] = [[97], [98]] \<and>
   lineset ([97, LF, 98] @ [LF]) = lineset [97, LF, 98] \<and>
   read_lines ([97, LF] @ [LF]) = read_lines [97, LF] @ [[]] \<and>
   read_lines ([97, CR] @ [LF]) = read_lines [97, CR]"
proof -
  have "read_lines [97, LF, 98] = [[97], [98]]"
    by (simp add: read_lines_def splitlines_Cons is_linechar_def is_linebreak_def)
  moreover have "\<not> is_linebreak 98" and "is_linebreak LF" and "is_linebreak CR"
    by (simp_all add: is_linebreak_def)
  ultimately show ?thesis
    using final_newline_lines [of "[97, LF, 98]"] final_newline_lines [of "[97, LF]"]
      final_newline_lines [of "[97, CR]"]
    by simp
qed

section \<open>Line boundaries\<close>

text \<open>
  A form feed is no newline of any platform, and the file below holds neither a line
  feed nor a carriage return; still it is read as two lines.
\<close>

theorem form_feed_counterexample:
  "LF \<notin> set [97, 12, 98] \<and> CR \<notin> set [97, 12, 98] \<and>
   read_lines [97, 12, 98] = [[97], [98]] \<and> lineset [97, 12, 98] = {[97], [98]}"
  by (simp add: lineset_def read_lines_def splitlines_Cons is_linechar_def is_linebreak_def)

text \<open>
  C8, amended. The line boundaries are those of \<^verbatim>\<open>str.splitlines\<close> on the text read
  with universal newlines: the characters line feed, vertical tab, form feed, carriage
  return, U+001C, U+001D, U+001E, U+0085, U+2028 and U+2029, a carriage return with a
  line feed after it being one boundary. The empty text has no line; a text without such
  a character is one line; a text is split at its first such character, the lines
  after it being those of the rest; and no line holds such a character.
\<close>

theorem line_boundaries:
  "(is_linebreak ch \<longleftrightarrow> ch \<in> {10, 11, 12, 13, 28, 29, 30, 133, 8232, 8233}) \<and>
   (\<forall>line\<in>set (read_lines raw). \<forall>c\<in>set line. \<not> is_linebreak c) \<and>
   read_lines [] = [] \<and>
   ((\<forall>c\<in>set l. \<not> is_linebreak c) \<and> l \<noteq> [] \<longrightarrow> read_lines l = [l]) \<and>
   ((\<forall>c\<in>set l. \<not> is_linebreak c) \<and> is_linebreak b \<longrightarrow>
      read_lines (l @ b # rest) = l # read_lines (skip_eol (b # rest)))"
proof (intro conjI impI)
  show "is_linebreak ch \<longleftrightarrow> ch \<in> {10, 11, 12, 13, 28, 29, 30, 133, 8232, 8233}"
    by (simp add: is_linebreak_def)
  show "read_lines [] = []"
    by (simp add: read_lines_def)
  show "\<forall>line\<in>set (read_lines raw). \<forall>c\<in>set line. \<not> is_linebreak c"
    using splitlines_linechars [of _ raw]
    by (auto simp: read_lines_splitlines is_linechar_def)
next
  assume "(\<forall>c\<in>set l. \<not> is_linebreak c) \<and> l \<noteq> []"
  then show "read_lines l = [l]"
    by (simp add: read_lines_splitlines splitlines_unbroken is_linechar_def)
next
  assume "(\<forall>c\<in>set l. \<not> is_linebreak c) \<and> is_linebreak b"
  then show "read_lines (l @ b # rest) = l # read_lines (skip_eol (b # rest))"
    by (simp add: read_lines_splitlines splitlines_at_break is_linechar_def)
qed

theorem line_boundaries_witness:
  "is_linebreak 12 \<and> \<not> is_linebreak 97 \<and>
   read_lines [97, 98] = [[97, 98]] \<and>
   read_lines ([97] @ 12 # [98, CR, LF, 99]) = [[97], [98], [99]] \<and>
   [97, 98] \<in> set (read_lines [97, 98]) \<and> 98 \<in> set [97, 98] \<and> \<not> is_linebreak 98"
proof -
  have a: "\<forall>c\<in>set [97]. \<not> is_linebreak c" and b: "\<forall>c\<in>set [98]. \<not> is_linebreak c"
    and c: "\<forall>c\<in>set [99]. \<not> is_linebreak c" and ab: "\<forall>c\<in>set [97, 98]. \<not> is_linebreak c"
    by (simp_all add: is_linebreak_def)
  have ff: "is_linebreak 12" and cr: "is_linebreak CR" and "\<not> is_linebreak 97"
    by (simp_all add: is_linebreak_def)
  moreover have whole: "read_lines [97, 98] = [[97, 98]]"
    using line_boundaries [of 12 "[]" "[97, 98]"] ab by simp
  moreover have "read_lines ([97] @ 12 # [98, CR, LF, 99]) = [[97], [98], [99]]"
    using line_boundaries [of 12 "[]" "[97]" 12 "[98, CR, LF, 99]"]
      line_boundaries [of 12 "[]" "[98]" CR "[LF, 99]"]
      line_boundaries [of 12 "[]" "[99]"] a b c ff cr
    by simp
  moreover have "[97, 98] \<in> set (read_lines [97, 98])" and "98 \<in> set [97, 98]"
    by (simp_all add: whole)
  moreover from this have "\<not> is_linebreak 98"
    using line_boundaries [of 12 "[97, 98]"] by blast
  ultimately show ?thesis by blast
qed

end
